theory Spec2Isabelle
  imports Complex_Main
begin

section \<open>The serving script \<open>dogscats.py\<close>\<close>

text \<open>
  The script \<^verbatim>\<open>src/dogscats/dogscats.py\<close> holds the four hooks of a hosted model
  (\<^verbatim>\<open>model_fn\<close>, \<^verbatim>\<open>input_fn\<close>, \<^verbatim>\<open>predict_fn\<close>, \<^verbatim>\<open>output_fn\<close>) and the helpers they
  call. Each hook is embedded as a HOL function of the same name. A leading underscore
  is not part of a HOL name, so \<^verbatim>\<open>_create_model\<close>, \<^verbatim>\<open>_model_meta\<close>, \<^verbatim>\<open>_default_meta\<close>,
  \<^verbatim>\<open>_resnet_meta\<close> and \<^verbatim>\<open>_preprocess\<close> appear without it. Calls of \<^verbatim>\<open>print\<close> and of the
  logger produce no value that the script reads back and are left out. The default
  arguments of \<^verbatim>\<open>input_fn\<close> and \<^verbatim>\<open>output_fn\<close> are passed explicitly.

  What the script takes from outside (the file system, the attributes of
  \<^verbatim>\<open>torchvision.models\<close>, the network's forward pass, the JPEG decoder) is a parameter
  of the embedding.
\<close>

subsection \<open>Exceptions\<close>

text \<open>Every \<^verbatim>\<open>raise\<close> of the script, and every exception of a library call that the
  embedding follows, is a value of this type.\<close>

datatype error =
    IndexError
  | AttributeError string
  | FileNotFoundError string
  | IsADirectoryError string
  | TypeError
  | RuntimeError
  | ValueError
  | OSError
  | ZeroDivisionError
  | Exception string

subsection \<open>Module constants (lines 39--59)\<close>

definition JSON_CONTENT_TYPE :: string where
  "JSON_CONTENT_TYPE = ''application/json''"

definition JPEG_CONTENT_TYPE :: string where
  "JPEG_CONTENT_TYPE = ''image/jpeg''"

definition classes :: "string list" where
  "classes = [''cats'', ''dogs'']"

text \<open>An architecture is one of the constructor functions of \<^verbatim>\<open>torchvision.models\<close>
  (\<^verbatim>\<open>tvm\<close>); it is identified by the name of the attribute that holds it.\<close>

type_synonym arch = string

datatype split_rule = default_split | resnet_split

record meta =
  meta_cut :: int
  meta_split :: split_rule

definition default_meta :: meta where
  "default_meta = \<lparr>meta_cut = - 1, meta_split = default_split\<rparr>"

definition resnet_meta :: meta where
  "resnet_meta = \<lparr>meta_cut = - 2, meta_split = resnet_split\<rparr>"

definition model_meta :: "arch \<rightharpoonup> meta" where
  "model_meta = map_of
     [(''resnet18'', resnet_meta), (''resnet34'', resnet_meta),
      (''resnet50'', resnet_meta), (''resnet101'', resnet_meta),
      (''resnet152'', resnet_meta)]"

text \<open>\<^verbatim>\<open>dict.get(key, default)\<close>.\<close>

definition dict_get :: "('k \<rightharpoonup> 'v) \<Rightarrow> 'k \<Rightarrow> 'v \<Rightarrow> 'v" where
  "dict_get d k dflt = (case d k of None \<Rightarrow> dflt | Some v \<Rightarrow> v)"

subsection \<open>The world outside the script\<close>

text \<open>
  \<^item> \<open>cuda_is_available\<close>: the answer of \<^verbatim>\<open>torch.cuda.is_available()\<close>;
  \<^item> \<open>listdir\<close>: the file system. For the path of a directory it lists the entries in
    the order the operating system gives them, each name with what
    \<^verbatim>\<open>open(path, 'rb')\<close> followed by reading gives for it: the content, or the error
    raised (for an entry that is itself a directory, \<^verbatim>\<open>IsADirectoryError\<close>). For
    any other path the list is empty. The empty path is the working directory;
  \<^item> \<open>glob_magic\<close>: the answer of \<^verbatim>\<open>glob.glob\<close> to a pattern whose directory part has
    glob characters, which depends on every directory that part matches;
  \<^item> \<open>tvm\<close>: which names are attributes of \<^verbatim>\<open>torchvision.models\<close>;
  \<^item> \<open>arch_call\<close>: what calling such an attribute as \<^verbatim>\<open>arch(False)\<close> raises, if
    anything (\<^verbatim>\<open>TypeError\<close> for an attribute that is not callable, such as the
    submodule \<^verbatim>\<open>resnet\<close>);
  \<^item> \<open>num_features\<close>: the value of fastai's \<^verbatim>\<open>num_features\<close> for the body cut from an
    architecture at a cut point, \<open>None\<close> when no layer of the body has a feature count;
  \<^item> \<open>load_state_dict\<close>: what \<^verbatim>\<open>torch.load\<close> of a file's content followed by
    \<^verbatim>\<open>load_state_dict\<close> into the network built for an architecture raises, if
    anything.
  The content of a weights file has the abstract type \<open>'w\<close>.
\<close>

record 'w world =
  cuda_is_available :: bool
  listdir :: "string \<Rightarrow> (string \<times> (error + 'w)) list"
  glob_magic :: "string \<Rightarrow> string list"
  tvm :: "string \<Rightarrow> bool"
  arch_call :: "arch \<Rightarrow> error option"
  num_features :: "arch \<Rightarrow> int \<Rightarrow> nat option"
  load_state_dict :: "arch \<Rightarrow> 'w \<Rightarrow> error option"

text \<open>\<^verbatim>\<open>getattr(tvm, name)\<close>.\<close>

definition getattr_tvm :: "'w world \<Rightarrow> string \<Rightarrow> error + arch" where
  "getattr_tvm W name = (if tvm W name then Inr name else Inl (AttributeError name))"

subsection \<open>The network (lines 95--104)\<close>

text \<open>The network is kept as a description: the backbone and where it was cut, the
  head's input and output widths, the weights loaded into it, the device it lives on and
  whether it is in training mode (a fresh \<^verbatim>\<open>nn.Module\<close> is). The device passed to
  \<^verbatim>\<open>_create_model\<close> only switches \<^verbatim>\<open>torch.backends.cudnn.benchmark\<close>, a flag of the
  library that the script never reads, so the embedding does not use it; the network is
  built on the CPU and moved by \<^verbatim>\<open>model_fn\<close>.

  After the lookup of the metadata (line 97) two steps can raise: the call
  \<^verbatim>\<open>arch(False)\<close> (line 99), and \<^verbatim>\<open>num_features(body) * 2\<close> (line 100), which is
  \<^verbatim>\<open>None * 2\<close>, a \<^verbatim>\<open>TypeError\<close>, when the body has no feature count.\<close>

record 'w model =
  body_arch :: arch
  body_cut :: int
  head_nf :: nat
  head_out :: nat
  state_dict :: "'w option"
  device :: string
  training :: bool

definition create_model :: "'w world \<Rightarrow> arch \<Rightarrow> string \<Rightarrow> error + 'w model" where
  "create_model W arch dev =
     (let meta = dict_get model_meta arch default_meta in
      case arch_call W arch of
        Some e \<Rightarrow> Inl e
      | None \<Rightarrow>
          (case num_features W arch (meta_cut meta) of
             None \<Rightarrow> Inl TypeError
           | Some n \<Rightarrow>
               (let nf = n * 2
                in Inr \<lparr>body_arch = arch, body_cut = meta_cut meta, head_nf = nf,
                        head_out = length classes, state_dict = None, device = ''cpu'',
                        training = True\<rparr>)))"

subsection \<open>Paths and file names\<close>

text \<open>\<^verbatim>\<open>fnmatch\<close> of a name against a pattern with one star, \<open>pre*suf\<close>, on a
  case-sensitive file system: the name starts with \<open>pre\<close>, ends with \<open>suf\<close>, and the two
  do not overlap.\<close>

definition fnmatch_star :: "string \<Rightarrow> string \<Rightarrow> string \<Rightarrow> bool" where
  "fnmatch_star pre suf name \<longleftrightarrow>
     length pre + length suf \<le> length name \<and>
     take (length pre) name = pre \<and>
     drop (length name - length suf) name = suf"

text \<open>\<^verbatim>\<open>os.path.split\<close> (POSIX): the tail is what follows the last slash; the head is
  the rest without its trailing slashes, unless it is slashes only.\<close>

definition os_path_split :: "string \<Rightarrow> string \<times> string" where
  "os_path_split p =
     (let tail = rev (takeWhile (\<lambda>c. c \<noteq> CHR ''/'') (rev p));
          head = take (length p - length tail) p
      in (if head \<noteq> [] \<and> list_ex (\<lambda>c. c \<noteq> CHR ''/'') head
          then rev (dropWhile (\<lambda>c. c = CHR ''/'') (rev head)) else head,
          tail))"

text \<open>\<^verbatim>\<open>os.path.join\<close> (POSIX) of two components.\<close>

definition os_path_join :: "string \<Rightarrow> string \<Rightarrow> string" where
  "os_path_join a b =
     (if b \<noteq> [] \<and> hd b = CHR ''/'' then b
      else if a = [] \<or> last a = CHR ''/'' then a @ b
      else a @ ''/'' @ b)"

text \<open>\<^verbatim>\<open>os.path.splitext\<close> (POSIX): the extension starts at the last dot of the last
  path component, provided some character of that component before the dot is not a
  dot.\<close>

definition splitext :: "string \<Rightarrow> string \<times> string" where
  "splitext p =
     (let fname = rev (takeWhile (\<lambda>c. c \<noteq> CHR ''/'') (rev p));
          ext = rev (takeWhile (\<lambda>c. c \<noteq> CHR ''.'') (rev fname))
      in if CHR ''.'' \<in> set fname \<and>
            list_ex (\<lambda>c. c \<noteq> CHR ''.'') (take (length fname - length ext - 1) fname)
         then (take (length p - length ext - 1) p, CHR ''.'' # ext)
         else (p, []))"

text \<open>\<^verbatim>\<open>glob.has_magic\<close>: the string has a star, a question mark or an opening
  bracket.\<close>

definition has_magic :: "string \<Rightarrow> bool" where
  "has_magic s \<longleftrightarrow> list_ex (\<lambda>c. c = CHR ''*'' \<or> c = CHR ''?'' \<or> c = CHR ''['') s"

text \<open>\<^verbatim>\<open>glob.glob(f'{dir}/pre*suf')\<close>, for \<open>pre\<close> and \<open>suf\<close> without slash or glob
  character and \<open>pre\<close> not starting with a dot. The pattern is split into its directory
  part and its last component. A directory part with glob characters is expanded
  against the file system; otherwise the names of that one directory that match the
  last component are joined to it, in the order of the listing.\<close>

definition glob :: "'w world \<Rightarrow> string \<Rightarrow> string \<Rightarrow> string \<Rightarrow> string list" where
  "glob W dir pre suf =
     (let pathname = dir @ ''/'' @ pre @ ''*'' @ suf;
          dirname = fst (os_path_split pathname)
      in if has_magic dirname then glob_magic W pathname
         else map (os_path_join dirname)
                (filter (fnmatch_star pre suf) (map fst (listdir W dirname))))"

text \<open>\<^verbatim>\<open>open(path, 'rb')\<close> and reading the file: the entry of that name in the
  directory of the path.\<close>

definition open_rb :: "'w world \<Rightarrow> string \<Rightarrow> error + 'w" where
  "open_rb W path =
     (case map_of (listdir W (fst (os_path_split path))) (snd (os_path_split path)) of
        None \<Rightarrow> Inl (FileNotFoundError path)
      | Some r \<Rightarrow> r)"

subsection \<open>\<^verbatim>\<open>model_fn\<close> (lines 107--122)\<close>

definition model_fn :: "'w world \<Rightarrow> string \<Rightarrow> error + 'w model" where
  "model_fn W model_dir =
     (let dev = (if cuda_is_available W then ''cuda'' else ''cpu'') in
      case glob W model_dir ''resnet'' ''.pth'' of
        [] \<Rightarrow> Inl IndexError
      | p # _ \<Rightarrow>
          (let arch_name = fst (splitext (snd (os_path_split p))) in
           case getattr_tvm W arch_name of
             Inl e \<Rightarrow> Inl e
           | Inr arch \<Rightarrow>
               (case create_model W arch dev of
                  Inl e \<Rightarrow> Inl e
                | Inr model \<Rightarrow>
                    (case open_rb W (os_path_join model_dir (arch_name @ ''.pth'')) of
                       Inl e \<Rightarrow> Inl e
                     | Inr w \<Rightarrow>
                         (case load_state_dict W arch w of
                            Some e \<Rightarrow> Inl e
                          | None \<Rightarrow>
                              Inr (model\<lparr>state_dict := Some w, device := dev,
                                          training := False\<rparr>))))))"

subsection \<open>The image size (line 43)\<close>

text \<open>\<^verbatim>\<open>int(s)\<close> of a string, base ten: white space around the number is dropped, one
  sign may come first, and the digits may be grouped by single underscores. Anything
  else raises \<^verbatim>\<open>ValueError\<close>. A \<open>char\<close> is a code point below 256. The white space
  that \<^verbatim>\<open>int\<close> drops is the ASCII white space (tab to carriage return, and the space)
  and the two Unicode spaces of that range, 0x85 and 0xA0; the separators 0x1C to 0x1F
  are not dropped.\<close>

definition is_space :: "char \<Rightarrow> bool" where
  "is_space c \<longleftrightarrow>
     (let n = of_char c :: nat in (9 \<le> n \<and> n \<le> 13) \<or> n = 32 \<or> n = 0x85 \<or> n = 0xA0)"

definition is_digit :: "char \<Rightarrow> bool" where
  "is_digit c \<longleftrightarrow> (let n = of_char c :: nat in 48 \<le> n \<and> n \<le> 57)"

definition digit_value :: "char \<Rightarrow> nat" where
  "digit_value c = of_char c - 48"

definition strip :: "string \<Rightarrow> string" where
  "strip s = rev (dropWhile is_space (rev (dropWhile is_space s)))"

fun py_digits :: "nat \<Rightarrow> string \<Rightarrow> nat option" where
  "py_digits acc [] = Some acc"
| "py_digits acc [c] = (if is_digit c then Some (10 * acc + digit_value c) else None)"
| "py_digits acc (c # d # cs) =
     (if is_digit c then py_digits (10 * acc + digit_value c) (d # cs)
      else if c = CHR ''_'' \<and> is_digit d then py_digits acc (d # cs)
      else None)"

definition py_unsigned :: "string \<Rightarrow> nat option" where
  "py_unsigned s = (case s of [] \<Rightarrow> None | c # cs \<Rightarrow> if is_digit c then py_digits 0 s else None)"

definition py_int :: "string \<Rightarrow> error + int" where
  "py_int s =
     (case strip s of
        [] \<Rightarrow> Inl ValueError
      | c # cs \<Rightarrow>
          (if c = CHR ''-'' then
             (case py_unsigned cs of None \<Rightarrow> Inl ValueError | Some n \<Rightarrow> Inr (- int n))
           else if c = CHR ''+'' then
             (case py_unsigned cs of None \<Rightarrow> Inl ValueError | Some n \<Rightarrow> Inr (int n))
           else
             (case py_unsigned (c # cs) of None \<Rightarrow> Inl ValueError | Some n \<Rightarrow> Inr (int n))))"


subsection \<open>The preprocessing pipeline (lines 62--67)\<close>

text \<open>An image is kept by its geometry, the size and the mode of a PIL image, and a
  tensor by its shape and its device: the pixel values are floating-point data that no
  function of the script inspects. The four transforms follow torchvision's
  \<^verbatim>\<open>transforms.functional\<close>.\<close>

record image =
  im_width :: nat
  im_height :: nat
  im_mode :: string

record tensor =
  t_shape :: "nat list"
  t_device :: string

text \<open>\<^verbatim>\<open>Resize(sz)\<close> with an integer: the shorter side becomes \<open>sz\<close>, the other side
  is scaled and truncated; an image whose shorter side is \<open>sz\<close> already is returned as
  it is.\<close>

definition Resize :: "nat \<Rightarrow> image \<Rightarrow> error + image" where
  "Resize sz img =
     (let w = im_width img; h = im_height img in
      if (w \<le> h \<and> w = sz) \<or> (h \<le> w \<and> h = sz) then Inr img
      else if w < h then
        (if w = 0 then Inl ZeroDivisionError
         else Inr (img\<lparr>im_width := sz, im_height := sz * h div w\<rparr>))
      else
        (if h = 0 then Inl ZeroDivisionError
         else Inr (img\<lparr>im_width := sz * w div h, im_height := sz\<rparr>)))"

text \<open>\<^verbatim>\<open>int(round(n / 2.))\<close>: Python rounds a half to the even neighbour.\<close>

definition round_half :: "int \<Rightarrow> int" where
  "round_half n =
     (if even n then n div 2 else if even (n div 2) then n div 2 else n div 2 + 1)"

text \<open>\<^verbatim>\<open>Image.crop(box)\<close>: a box whose right (lower) edge lies before its left (upper)
  edge is emptied; the part of the box outside the image is filled with zeros.\<close>

definition crop :: "int \<times> int \<times> int \<times> int \<Rightarrow> image \<Rightarrow> image" where
  "crop box img =
     (case box of (x0, y0, x1, y1) \<Rightarrow>
        img\<lparr>im_width := nat (max x1 x0 - x0), im_height := nat (max y1 y0 - y0)\<rparr>)"

definition CenterCrop :: "int \<Rightarrow> image \<Rightarrow> image" where
  "CenterCrop sz img =
     (let w = int (im_width img); h = int (im_height img);
          th = sz; tw = sz;
          i = round_half (h - th);
          j = round_half (w - tw)
      in crop (j, i, j + tw, i + th) img)"

definition nchannel :: "string \<Rightarrow> nat" where
  "nchannel mode =
     (if mode = ''YCbCr'' then 3 else if mode = ''I;16'' then 1 else length mode)"

definition ToTensor :: "image \<Rightarrow> tensor" where
  "ToTensor img =
     \<lparr>t_shape = [nchannel (im_mode img), im_height img, im_width img], t_device = ''cpu''\<rparr>"

text \<open>\<^verbatim>\<open>Normalize(mean, std)\<close> rescales each channel in place.\<close>

definition Normalize :: "tensor \<Rightarrow> tensor" where
  "Normalize t = t"

definition preprocess :: "int \<Rightarrow> image \<Rightarrow> error + tensor" where
  "preprocess img_size img =
     (case Resize 256 img of
        Inl e \<Rightarrow> Inl e
      | Inr resized \<Rightarrow> Inr (Normalize (ToTensor (CenterCrop img_size resized))))"

subsection \<open>\<^verbatim>\<open>input_fn\<close> (lines 125--137)\<close>

text \<open>\<open>image_open\<close> is \<^verbatim>\<open>PIL.Image.open(io.BytesIO(body))\<close>: the decoded image, or the
  error PIL raises for bytes that are no image.\<close>

definition convert :: "string \<Rightarrow> image \<Rightarrow> image" where
  "convert mode img = img\<lparr>im_mode := mode\<rparr>"

definition unsqueeze :: "nat \<Rightarrow> tensor \<Rightarrow> tensor" where
  "unsqueeze d t = t\<lparr>t_shape := take d (t_shape t) @ 1 # drop d (t_shape t)\<rparr>"

definition input_fn ::
  "'w world \<Rightarrow> int \<Rightarrow> ('b \<Rightarrow> error + image) \<Rightarrow> 'b \<Rightarrow> string \<Rightarrow> error + tensor" where
  "input_fn W img_size image_open request_body content_type =
     (if content_type = JPEG_CONTENT_TYPE then
        (let dev = (if cuda_is_available W then ''cuda'' else ''cpu'') in
         case image_open request_body of
           Inl e \<Rightarrow> Inl e
         | Inr img \<Rightarrow>
             (case preprocess img_size (convert ''RGB'' img) of
                Inl e \<Rightarrow> Inl e
              | Inr img_tensor \<Rightarrow> Inr ((unsqueeze 0 img_tensor)\<lparr>t_device := dev\<rparr>)))
      else Inl (Exception
        (''Requested unsupported ContentType in content_type: '' @ content_type)))"

subsection \<open>Floating-point values\<close>

text \<open>A float is a real number, an infinity or NaN. Arithmetic on the special values
  follows IEEE 754; on numbers it is exact, so the embedding says nothing of rounding.
  The zero has no sign.\<close>

datatype float = Num real | PosInf | NegInf | NaN

fun fadd :: "float \<Rightarrow> float \<Rightarrow> float" where
  "fadd NaN b = NaN"
| "fadd a NaN = NaN"
| "fadd (Num a) (Num b) = Num (a + b)"
| "fadd PosInf NegInf = NaN"
| "fadd NegInf PosInf = NaN"
| "fadd PosInf b = PosInf"
| "fadd a PosInf = PosInf"
| "fadd NegInf b = NegInf"
| "fadd a NegInf = NegInf"

fun fneg :: "float \<Rightarrow> float" where
  "fneg (Num a) = Num (- a)"
| "fneg PosInf = NegInf"
| "fneg NegInf = PosInf"
| "fneg NaN = NaN"

definition fsub :: "float \<Rightarrow> float \<Rightarrow> float" where
  "fsub a b = fadd a (fneg b)"

fun fexp :: "float \<Rightarrow> float" where
  "fexp (Num a) = Num (exp a)"
| "fexp PosInf = PosInf"
| "fexp NegInf = Num 0"
| "fexp NaN = NaN"

fun fdiv :: "float \<Rightarrow> float \<Rightarrow> float" where
  "fdiv NaN b = NaN"
| "fdiv a NaN = NaN"
| "fdiv (Num a) (Num b) =
     (if b \<noteq> 0 then Num (a / b)
      else if 0 < a then PosInf else if a < 0 then NegInf else NaN)"
| "fdiv (Num a) b = Num 0"
| "fdiv a (Num b) =
     (if 0 \<le> b then a else fneg a)"
| "fdiv a b = NaN"

text \<open>The comparisons \<open><=\<close> and \<open><\<close>: false whenever an operand is NaN.\<close>

fun fle :: "float \<Rightarrow> float \<Rightarrow> bool" where
  "fle NaN b = False"
| "fle a NaN = False"
| "fle NegInf b = True"
| "fle a PosInf = True"
| "fle (Num a) (Num b) = (a \<le> b)"
| "fle a b = False"

definition flt :: "float \<Rightarrow> float \<Rightarrow> bool" where
  "flt a b \<longleftrightarrow> fle a b \<and> \<not> fle b a"

text \<open>The larger of two floats, NaN if either is.\<close>

definition fmax :: "float \<Rightarrow> float \<Rightarrow> float" where
  "fmax a b = (if a = NaN \<or> b = NaN then NaN else if fle a b then b else a)"

subsection \<open>\<^verbatim>\<open>predict_fn\<close> (lines 140--155)\<close>

text \<open>The output of the network is a batch of rows, one score per label in each row.
  \<^verbatim>\<open>F.softmax(output, dim=1)\<close> maps each row as torch does: it subtracts the largest
  score of the row from every score, exponentiates, and divides by the sum.\<close>

fun fmax_list :: "float \<Rightarrow> float list \<Rightarrow> float" where
  "fmax_list x [] = x"
| "fmax_list x (y # ys) = fmax x (fmax_list y ys)"

fun fsum :: "float list \<Rightarrow> float" where
  "fsum [] = Num 0"
| "fsum (x # xs) = fadd x (fsum xs)"

definition softmax :: "float list \<Rightarrow> float list" where
  "softmax xs =
     (case xs of
        [] \<Rightarrow> []
      | x # rest \<Rightarrow>
          (let m = fmax_list x rest;
               es = map (\<lambda>v. fexp (fsub v m)) xs;
               s = fsum es
           in map (\<lambda>e. fdiv e s) es))"

text \<open>The maximum of a non-empty row \<open>x # xs\<close> and its index, as \<^verbatim>\<open>torch.max\<close> finds
  them: going through the row, a later element replaces the current maximum unless it
  is \<open><=\<close> to it, and the search ends at the first NaN. So the result is the first NaN
  of the row if there is one, and the first largest element otherwise.\<close>

fun row_max :: "float \<Rightarrow> float list \<Rightarrow> float \<times> nat" where
  "row_max x [] = (x, 0)"
| "row_max x (y # ys) =
     (case row_max y ys of (m, i) \<Rightarrow>
        if x \<noteq> NaN \<and> \<not> fle m x then (m, Suc i) else (x, 0))"

text \<open>\<^verbatim>\<open>torch.max(t, 1)\<close>: per row, the maximum and its index; no maximum of an empty
  row.\<close>

fun torch_max :: "float list list \<Rightarrow> error + (float list \<times> nat list)" where
  "torch_max [] = Inr ([], [])"
| "torch_max ([] # rows) = Inl RuntimeError"
| "torch_max ((x # xs) # rows) =
     (case torch_max rows of
        Inl e \<Rightarrow> Inl e
      | Inr (vals, idxs) \<Rightarrow> Inr (fst (row_max x xs) # vals, snd (row_max x xs) # idxs))"

text \<open>\<^verbatim>\<open>t.item()\<close>: the single element of a tensor.\<close>

definition item :: "'a list \<Rightarrow> error + 'a" where
  "item t = (case t of [x] \<Rightarrow> Inr x | _ \<Rightarrow> Inl ValueError)"

text \<open>\<^verbatim>\<open>seq[i]\<close> for an index that is not negative.\<close>

definition getitem :: "'a list \<Rightarrow> nat \<Rightarrow> error + 'a" where
  "getitem xs i = (if i < length xs then Inr (xs ! i) else Inl IndexError)"

text \<open>The response dictionary, its keys \<^verbatim>\<open>'class'\<close> and \<^verbatim>\<open>'confidence'\<close> in the order
  the script stores them.\<close>

record response =
  r_class :: string
  r_confidence :: float

definition predict_fn :: "'t \<Rightarrow> ('t \<Rightarrow> float list list) \<Rightarrow> error + response" where
  "predict_fn input_object model =
     (let output = model input_object;
          preds = map softmax output
      in case torch_max preds of
           Inl e \<Rightarrow> Inl e
         | Inr (conf_score, indx) \<Rightarrow>
             (case item conf_score of
                Inl e \<Rightarrow> Inl e
              | Inr conf \<Rightarrow>
                  (case item indx of
                     Inl e \<Rightarrow> Inl e
                   | Inr i \<Rightarrow>
                       (case getitem classes i of
                          Inl e \<Rightarrow> Inl e
                        | Inr name \<Rightarrow> Inr \<lparr>r_class = name, r_confidence = conf\<rparr>))))"

subsection \<open>\<^verbatim>\<open>output_fn\<close> (lines 158--162)\<close>

text \<open>\<^verbatim>\<open>json.dumps\<close> of a string (with \<^verbatim>\<open>ensure_ascii\<close>, the default): the quote, the
  backslash and every character outside the printable ASCII range are escaped. A \<open>char\<close>
  is a code point below 256.\<close>

definition hex_digit :: "nat \<Rightarrow> char" where
  "hex_digit n = ''0123456789abcdef'' ! (n mod 16)"

definition json_escape :: "char \<Rightarrow> string" where
  "json_escape c =
     (let n = of_char c :: nat in
      if n = 0x22 then [CHR 0x5C, CHR 0x22]
      else if n = 0x5C then [CHR 0x5C, CHR 0x5C]
      else if n = 0x0A then [CHR 0x5C, CHR ''n'']
      else if n = 0x0D then [CHR 0x5C, CHR ''r'']
      else if n = 0x09 then [CHR 0x5C, CHR ''t'']
      else if n = 0x0C then [CHR 0x5C, CHR ''f'']
      else if n = 0x08 then [CHR 0x5C, CHR ''b'']
      else if 0x20 \<le> n \<and> n \<le> 0x7E then [c]
      else [CHR 0x5C, CHR ''u'', CHR ''0'', CHR ''0'', hex_digit (n div 16), hex_digit n])"

definition json_string :: "string \<Rightarrow> string" where
  "json_string s = CHR 0x22 # concat (map json_escape s) @ [CHR 0x22]"

text \<open>\<^verbatim>\<open>json.dumps\<close> of the response dictionary. \<open>float_repr\<close> is Python's \<^verbatim>\<open>repr\<close> of
  a float.\<close>

definition json_dumps :: "(float \<Rightarrow> string) \<Rightarrow> response \<Rightarrow> string" where
  "json_dumps float_repr prediction =
     ''{'' @ json_string ''class'' @ '': '' @ json_string (r_class prediction) @ '', '' @
     json_string ''confidence'' @ '': '' @ float_repr (r_confidence prediction) @ ''}''"

definition output_fn ::
  "(float \<Rightarrow> string) \<Rightarrow> response \<Rightarrow> string \<Rightarrow> error + (string \<times> string)" where
  "output_fn float_repr prediction accept =
     (if accept = JSON_CONTENT_TYPE then Inr (json_dumps float_repr prediction, accept)
      else Inl (Exception (''Requested unsupported ContentType in Accept: '' @ accept)))"

subsection \<open>Concrete inputs\<close>

text \<open>A world with no GPU whose directory \<^verbatim>\<open>/opt/ml/model\<close> holds two weight files and
  whose directory \<^verbatim>\<open>/opt/ml/other\<close> holds \<^verbatim>\<open>resnet.pth\<close>. Of the attributes of
  \<^verbatim>\<open>torchvision.models\<close> it has the five ResNets, \<^verbatim>\<open>resnext50_32x4d\<close>, \<^verbatim>\<open>vgg16\<close>
  and the submodule \<^verbatim>\<open>resnet\<close>, which is not callable. The body of a ResNet or ResNeXt
  has 512 or 2048 features;
  the body of \<^verbatim>\<open>vgg16\<close>, cut before its classifier, has no layer with a feature count.
  Every weights file loads.\<close>

definition two_weight_files :: "(string \<times> (error + nat)) list" where
  "two_weight_files = [(''resnet34.pth'', Inr 1), (''resnet50.pth'', Inr 2)]"

definition demo_world :: "nat world" where
  "demo_world =
     \<lparr>cuda_is_available = False,
      listdir = (\<lambda>d. if d = ''/opt/ml/model'' then two_weight_files
                      else if d = ''/opt/ml/other'' then [(''resnet.pth'', Inr 3)]
                      else []),
      glob_magic = (\<lambda>p. []),
      tvm = (\<lambda>n. n \<in> set [''resnet18'', ''resnet34'', ''resnet50'', ''resnet101'',
                             ''resnet152'', ''resnext50_32x4d'', ''vgg16'', ''resnet'']),
      arch_call = (\<lambda>a. if a = ''resnet'' then Some TypeError else None),
      num_features = (\<lambda>a c. if a \<in> set [''resnet18'', ''resnet34''] then Some 512
                             else if a \<in> set [''resnet50'', ''resnet101'', ''resnet152'',
                                                 ''resnext50_32x4d'']
                             then Some 2048 else None),
      load_state_dict = (\<lambda>a w. None)\<rparr>"

text \<open>A network that scores every input \<open>0\<close> for cats and \<open>ln 3\<close> for dogs, one whose
  score for cats is NaN, one whose score for cats is infinite, a decoder that reads
  every non-empty body as a 500 by 375 image, and a float printer for the two values the
  examples need.\<close>

definition demo_net :: "tensor \<Rightarrow> float list list" where
  "demo_net t = [[Num 0, Num (ln 3)]]"

definition nan_net :: "tensor \<Rightarrow> float list list" where
  "nan_net t = [[NaN, Num 0]]"


definition demo_image_open :: "nat list \<Rightarrow> error + image" where
  "demo_image_open body =
     (if body = [] then Inl OSError
      else Inr \<lparr>im_width = 500, im_height = 375, im_mode = ''L''\<rparr>)"

definition demo_float_repr :: "float \<Rightarrow> string" where
  "demo_float_repr x = (if x = Num (3 / 4) then ''0.75'' else ''0.5'')"

section \<open>Properties\<close>

subsection \<open>Paths, and file names that match \<^verbatim>\<open>resnet*.pth\<close>\<close>

lemma basename_plain:
  assumes "CHR ''/'' \<notin> set n"
  shows "rev (takeWhile (\<lambda>c. c \<noteq> CHR ''/'') (rev n)) = n"
proof -
  have "takeWhile (\<lambda>c. c \<noteq> CHR ''/'') (rev n) = rev n"
    using assms by (auto simp: takeWhile_eq_all_conv)
  then show ?thesis by (simp only: rev_rev_ident)
qed

lemma strip_slash:
  assumes "d \<noteq> []" and "last d \<noteq> CHR ''/''"
  shows "rev (dropWhile (\<lambda>c. c = CHR ''/'') (rev (d @ ''/''))) = d"
proof -
  from assms have "hd (rev d) \<noteq> CHR ''/''" and "rev d \<noteq> []"
    by (simp_all add: hd_rev)
  then have "dropWhile (\<lambda>c. c = CHR ''/'') (rev d) = rev d"
    by (cases "rev d") simp_all
  then show ?thesis by simp
qed

lemma tail_plain:
  assumes "CHR ''/'' \<notin> set t"
  shows "rev (takeWhile (\<lambda>c. c \<noteq> CHR ''/'') (rev (d @ ''/'' @ t))) = t"
proof -
  have "rev (d @ ''/'' @ t) = rev t @ CHR ''/'' # rev d" by simp
  moreover have "takeWhile (\<lambda>c. c \<noteq> CHR ''/'') (rev t @ CHR ''/'' # rev d) =
      takeWhile (\<lambda>c. c \<noteq> CHR ''/'') (rev t)"
    by (rule takeWhile_tail) simp
  ultimately show ?thesis using basename_plain [OF assms] by (simp only:)
qed

lemma some_not_slash:
  assumes "d \<noteq> []" and "last d \<noteq> CHR ''/''"
  shows "list_ex (\<lambda>c. c \<noteq> CHR ''/'') (d @ ''/'')"
proof -
  have "last d \<in> set d" using assms(1) by simp
  with assms(2) have "\<exists>c\<in>set d. c \<noteq> CHR ''/''" by blast
  then show ?thesis by (simp add: list_ex_iff)
qed

lemma split_plain:
  assumes "d \<noteq> []" and "last d \<noteq> CHR ''/''" and "CHR ''/'' \<notin> set t"
  shows "os_path_split (d @ ''/'' @ t) = (d, t)"
proof -
  let ?p = "d @ ''/'' @ t"
  have tail: "rev (takeWhile (\<lambda>c. c \<noteq> CHR ''/'') (rev ?p)) = t"
    using assms(3) by (rule tail_plain)
  have head: "take (length ?p - length t) ?p = d @ ''/''"
    by simp
  have ne: "d @ ''/'' \<noteq> []" by simp
  show ?thesis
    unfolding os_path_split_def Let_def tail head
    by (simp only: ne some_not_slash [OF assms(1,2)] strip_slash [OF assms(1,2)]
        simp_thms if_True)
qed

lemma join_plain:
  assumes "d \<noteq> []" and "last d \<noteq> CHR ''/''" and "CHR ''/'' \<notin> set n"
  shows "os_path_join d n = d @ ''/'' @ n"
  using assms by (cases n) (auto simp: os_path_join_def)

lemma glob_plain:
  assumes "d \<noteq> []" and "last d \<noteq> CHR ''/''" and "\<not> has_magic d"
    and "list_all (\<lambda>n. CHR ''/'' \<notin> set n) (map fst (listdir W d))"
  shows "glob W d ''resnet'' ''.pth'' =
           map (\<lambda>n. d @ ''/'' @ n)
             (filter (fnmatch_star ''resnet'' ''.pth'') (map fst (listdir W d)))"
proof -
  have "os_path_split (d @ ''/'' @ (''resnet'' @ ''*'' @ ''.pth'')) = (d, ''resnet'' @ ''*'' @ ''.pth'')"
    using assms(1,2) by (intro split_plain) simp_all
  then have dn: "fst (os_path_split (d @ ''/'' @ ''resnet'' @ ''*'' @ ''.pth'')) = d" by simp
  have "map (os_path_join d) (filter (fnmatch_star ''resnet'' ''.pth'') (map fst (listdir W d))) =
        map (\<lambda>n. d @ ''/'' @ n) (filter (fnmatch_star ''resnet'' ''.pth'') (map fst (listdir W d)))"
    using assms(4) join_plain [OF assms(1,2)] by (intro map_cong) (auto simp: list_all_iff)
  then show ?thesis
    unfolding glob_def Let_def dn using assms(3) by simp
qed

lemma fnmatch_star_iff: "fnmatch_star pre suf n \<longleftrightarrow> (\<exists>mid. n = pre @ mid @ suf)"
proof
  assume m: "fnmatch_star pre suf n"
  then have len: "length pre + length suf \<le> length n"
    and pre: "take (length pre) n = pre"
    and suf: "drop (length n - length suf) n = suf"
    by (simp_all add: fnmatch_star_def)
  define k where "k = length n - length pre - length suf"
  have "n = take (length pre) n @ drop (length pre) n" by simp
  moreover have "drop (length pre) n = take k (drop (length pre) n) @ drop k (drop (length pre) n)"
    by (rule append_take_drop_id [symmetric])
  moreover have "drop k (drop (length pre) n) = drop (length n - length suf) n"
    using len by (simp add: k_def)
  ultimately have "n = pre @ take k (drop (length pre) n) @ suf"
    using pre suf by metis
  then show "\<exists>mid. n = pre @ mid @ suf" by blast
next
  assume "\<exists>mid. n = pre @ mid @ suf"
  then show "fnmatch_star pre suf n" by (auto simp: fnmatch_star_def)
qed

lemma splitext_pth:
  assumes "CHR ''/'' \<notin> set r" and "list_ex (\<lambda>c. c \<noteq> CHR ''.'') r"
  shows "splitext (r @ ''.pth'') = (r, ''.pth'')"
proof -
  have f: "rev (takeWhile (\<lambda>c. c \<noteq> CHR ''/'') (rev (r @ ''.pth''))) = r @ ''.pth''"
    using assms(1) by (intro basename_plain) simp
  have e: "rev (takeWhile (\<lambda>c. c \<noteq> CHR ''.'') (rev (r @ ''.pth''))) = ''pth''"
    by simp
  show ?thesis
    unfolding splitext_def f Let_def e using assms(2) by simp
qed

lemma stem_of_match:
  assumes "fnmatch_star ''resnet'' ''.pth'' n" and "CHR ''/'' \<notin> set n"
  shows "splitext n = (take (length n - 4) n, ''.pth'') \<and> take (length n - 4) n @ ''.pth'' = n"
proof -
  from assms(1) obtain mid where n: "n = ''resnet'' @ mid @ ''.pth''"
    unfolding fnmatch_star_iff by blast
  have "splitext ((''resnet'' @ mid) @ ''.pth'') = (''resnet'' @ mid, ''.pth'')"
    using assms(2) unfolding n by (intro splitext_pth) simp_all
  then show ?thesis by (simp add: n)
qed

subsection \<open>Loading the model\<close>

text \<open>
  Claim C1, as the code has it. Let the model directory be a plain path: not empty, not
  ending in a slash, without glob characters; the names of its entries have no slash.
  When no entry matches \<^verbatim>\<open>resnet*.pth\<close>, \<^verbatim>\<open>model_fn\<close> raises \<^verbatim>\<open>IndexError\<close>, from indexing
  the empty result of \<^verbatim>\<open>glob\<close>. When at least one entry matches, the number of matches
  causes no failure: the outcome is that of loading the first match \<open>n\<close> alone, whatever
  follows it in the listing. The architecture is the attribute of
  \<^verbatim>\<open>torchvision.models\<close> named by \<open>n\<close> without its extension \<^verbatim>\<open>.pth\<close>, the file opened is
  \<open>n\<close> itself, and the call returns or raises what looking up that attribute, building
  the network, opening \<open>n\<close> and loading its content return or raise.
\<close>

theorem model_fn_first_match:
  assumes dir: "model_dir \<noteq> []" "last model_dir \<noteq> CHR ''/''" "\<not> has_magic model_dir"
    and names: "list_all (\<lambda>n. CHR ''/'' \<notin> set n) (map fst (listdir W model_dir))"
  shows "(filter (fnmatch_star ''resnet'' ''.pth'') (map fst (listdir W model_dir)) = [] \<longrightarrow>
            model_fn W model_dir = Inl IndexError) \<and>
         (\<forall>n rest.
            filter (fnmatch_star ''resnet'' ''.pth'') (map fst (listdir W model_dir)) = n # rest \<longrightarrow>
            (\<exists>entry. map_of (listdir W model_dir) n = Some entry \<and>
               model_fn W model_dir =
                 (let a = take (length n - 4) n;
                      dev = (if cuda_is_available W then ''cuda'' else ''cpu'')
                  in case getattr_tvm W a of
                       Inl e \<Rightarrow> Inl e
                     | Inr arch \<Rightarrow>
                         (case create_model W arch dev of
                            Inl e \<Rightarrow> Inl e
                          | Inr model \<Rightarrow>
                              (case entry of
                                 Inl e \<Rightarrow> Inl e
                               | Inr w \<Rightarrow>
                                   (case load_state_dict W arch w of
                                      Some e \<Rightarrow> Inl e
                                    | None \<Rightarrow>
                                        Inr (model\<lparr>state_dict := Some w, device := dev,
                                                    training := False\<rparr>)))))))"
proof -
  let ?ms = "filter (fnmatch_star ''resnet'' ''.pth'') (map fst (listdir W model_dir))"
  note g = glob_plain [OF dir names]
  have none: "model_fn W model_dir = Inl IndexError" if "?ms = []"
    using that by (simp add: model_fn_def g)
  have some: "\<exists>entry. map_of (listdir W model_dir) n = Some entry \<and>
               model_fn W model_dir =
                 (let a = take (length n - 4) n;
                      dev = (if cuda_is_available W then ''cuda'' else ''cpu'')
                  in case getattr_tvm W a of
                       Inl e \<Rightarrow> Inl e
                     | Inr arch \<Rightarrow>
                         (case create_model W arch dev of
                            Inl e \<Rightarrow> Inl e
                          | Inr model \<Rightarrow>
                              (case entry of
                                 Inl e \<Rightarrow> Inl e
                               | Inr w \<Rightarrow>
                                   (case load_state_dict W arch w of
                                      Some e \<Rightarrow> Inl e
                                    | None \<Rightarrow>
                                        Inr (model\<lparr>state_dict := Some w, device := dev,
                                                    training := False\<rparr>)))))"
    if ms: "?ms = n # rest" for n rest
  proof -
    have "n \<in> set ?ms" using ms by simp
    then have mem: "n \<in> set (map fst (listdir W model_dir))"
      and m: "fnmatch_star ''resnet'' ''.pth'' n"
      by simp_all
    from mem names have plain: "CHR ''/'' \<notin> set n" by (auto simp: list_all_iff)
    from mem obtain entry where entry: "map_of (listdir W model_dir) n = Some entry"
      by (metis map_of_eq_None_iff not_Some_eq set_map)
    have g': "glob W model_dir ''resnet'' ''.pth'' =
               (model_dir @ ''/'' @ n) # map (\<lambda>n. model_dir @ ''/'' @ n) rest"
      using ms by (simp add: g)
    have sp: "os_path_split (model_dir @ ''/'' @ n) = (model_dir, n)"
      using dir(1,2) plain by (rule split_plain)
    have stem: "fst (splitext (snd (os_path_split (model_dir @ ''/'' @ n)))) = take (length n - 4) n"
      using stem_of_match [OF m plain] sp by simp
    have rejoin: "os_path_join model_dir (take (length n - 4) n @ ''.pth'') = model_dir @ ''/'' @ n"
      using stem_of_match [OF m plain] join_plain [OF dir(1,2) plain] by simp
    have opened: "open_rb W (model_dir @ ''/'' @ n) = entry"
      unfolding open_rb_def sp by (simp add: entry)
    have "model_fn W model_dir =
                 (let a = take (length n - 4) n;
                      dev = (if cuda_is_available W then ''cuda'' else ''cpu'')
                  in case getattr_tvm W a of
                       Inl e \<Rightarrow> Inl e
                     | Inr arch \<Rightarrow>
                         (case create_model W arch dev of
                            Inl e \<Rightarrow> Inl e
                          | Inr model \<Rightarrow>
                              (case entry of
                                 Inl e \<Rightarrow> Inl e
                               | Inr w \<Rightarrow>
                                   (case load_state_dict W arch w of
                                      Some e \<Rightarrow> Inl e
                                    | None \<Rightarrow>
                                        Inr (model\<lparr>state_dict := Some w, device := dev,
                                                    training := False\<rparr>)))))"
      unfolding model_fn_def g' Let_def list.case stem rejoin opened ..
    with entry show ?thesis by blast
  qed
  from none some show ?thesis by blast
qed

lemma demo_glob:
  "glob demo_world ''/opt/ml/model'' ''resnet'' ''.pth'' =
     [''/opt/ml/model/resnet34.pth'', ''/opt/ml/model/resnet50.pth'']"
  by (simp add: glob_def demo_world_def two_weight_files_def has_magic_def
      fnmatch_star_def os_path_split_def os_path_join_def Let_def)

lemma demo_create_resnet34:
  "create_model demo_world ''resnet34'' ''cpu'' =
     Inr \<lparr>body_arch = ''resnet34'', body_cut = - 2, head_nf = 1024, head_out = 2,
          state_dict = None, device = ''cpu'', training = True\<rparr>"
  by (simp add: create_model_def demo_world_def dict_get_def model_meta_def resnet_meta_def
      classes_def Let_def)

text \<open>
  The directory \<^verbatim>\<open>/opt/ml/model\<close> of the concrete world meets the hypotheses; two of its
  names match, and the call returns the network of the first.
\<close>

theorem model_fn_first_match_witness:
  "''/opt/ml/model'' \<noteq> [] \<and> last ''/opt/ml/model'' \<noteq> CHR ''/'' \<and>
   \<not> has_magic ''/opt/ml/model'' \<and>
   list_all (\<lambda>n. CHR ''/'' \<notin> set n) (map fst (listdir demo_world ''/opt/ml/model'')) \<and>
   filter (fnmatch_star ''resnet'' ''.pth'') (map fst (listdir demo_world ''/opt/ml/model'')) =
     [''resnet34.pth'', ''resnet50.pth''] \<and>
   map_of (listdir demo_world ''/opt/ml/model'') ''resnet34.pth'' = Some (Inr 1) \<and>
   model_fn demo_world ''/opt/ml/model'' =
     Inr \<lparr>body_arch = ''resnet34'', body_cut = - 2, head_nf = 1024, head_out = 2,
          state_dict = Some 1, device = ''cpu'', training = False\<rparr>"
proof -
  have d1: "''/opt/ml/model'' \<noteq> []" and d2: "last ''/opt/ml/model'' \<noteq> CHR ''/''"
    and d3: "\<not> has_magic ''/opt/ml/model''"
    by (simp_all add: has_magic_def)
  have ls: "listdir demo_world ''/opt/ml/model'' = two_weight_files"
    by (simp add: demo_world_def)
  have h: "list_all (\<lambda>n. CHR ''/'' \<notin> set n) (map fst (listdir demo_world ''/opt/ml/model''))"
    by (simp add: ls two_weight_files_def)
  have f: "filter (fnmatch_star ''resnet'' ''.pth'')
             (map fst (listdir demo_world ''/opt/ml/model'')) =
             [''resnet34.pth'', ''resnet50.pth'']"
    by (simp add: ls two_weight_files_def fnmatch_star_def)
  have e: "map_of (listdir demo_world ''/opt/ml/model'') ''resnet34.pth'' = Some (Inr 1)"
    by (simp add: ls two_weight_files_def)
  from model_fn_first_match [OF d1 d2 d3 h] f
  obtain entry where en: "map_of (listdir demo_world ''/opt/ml/model'') ''resnet34.pth'' = Some entry"
    and m: "model_fn demo_world ''/opt/ml/model'' =
                 (let a = take (length ''resnet34.pth'' - 4) ''resnet34.pth'';
                      dev = (if cuda_is_available demo_world then ''cuda'' else ''cpu'')
                  in case getattr_tvm demo_world a of
                       Inl e \<Rightarrow> Inl e
                     | Inr arch \<Rightarrow>
                         (case create_model demo_world arch dev of
                            Inl e \<Rightarrow> Inl e
                          | Inr model \<Rightarrow>
                              (case entry of
                                 Inl e \<Rightarrow> Inl e
                               | Inr w \<Rightarrow>
                                   (case load_state_dict demo_world arch w of
                                      Some e \<Rightarrow> Inl e
                                    | None \<Rightarrow>
                                        Inr (model\<lparr>state_dict := Some w, device := dev,
                                                    training := False\<rparr>)))))"
    by blast
  from en e have entry: "entry = Inr 1" by simp
  have stem: "take (length ''resnet34.pth'' - 4) ''resnet34.pth'' = ''resnet34''" by simp
  have attr: "getattr_tvm demo_world ''resnet34'' = Inr ''resnet34''"
    by (simp add: getattr_tvm_def demo_world_def)
  have loads: "load_state_dict demo_world ''resnet34'' 1 = None"
    and gpu: "cuda_is_available demo_world = False"
    by (simp_all add: demo_world_def)
  have r: "model_fn demo_world ''/opt/ml/model'' =
     Inr \<lparr>body_arch = ''resnet34'', body_cut = - 2, head_nf = 1024, head_out = 2,
          state_dict = Some 1, device = ''cpu'', training = False\<rparr>"
    unfolding m entry Let_def stem attr sum.case gpu if_False demo_create_resnet34 loads
      option.case
    by simp
  show ?thesis by (intro conjI) (rule d1 d2 d3 h f e r)+
qed

text \<open>
  Claim C1 as the spec states it fails: with two matching weight files \<^verbatim>\<open>model_fn\<close> does
  not fail, it returns the network of the first.
\<close>

theorem model_fn_two_matches_counterexample:
  "model_fn demo_world ''/opt/ml/model'' =
     Inr \<lparr>body_arch = ''resnet34'', body_cut = - 2, head_nf = 1024, head_out = 2,
          state_dict = Some 1, device = ''cpu'', training = False\<rparr>"
proof -
  have stem: "fst (splitext (snd (os_path_split ''/opt/ml/model/resnet34.pth''))) = ''resnet34''"
    by (simp add: os_path_split_def splitext_def Let_def)
  have attr: "getattr_tvm demo_world ''resnet34'' = Inr ''resnet34''"
    by (simp add: getattr_tvm_def demo_world_def)
  have opened: "open_rb demo_world (os_path_join ''/opt/ml/model'' (''resnet34'' @ ''.pth'')) = Inr 1"
    by (simp add: open_rb_def os_path_join_def os_path_split_def demo_world_def
        two_weight_files_def Let_def)
  have loads: "load_state_dict demo_world ''resnet34'' 1 = None"
    and gpu: "cuda_is_available demo_world = False"
    by (simp_all add: demo_world_def)
  show ?thesis
    unfolding model_fn_def demo_glob Let_def list.case stem attr sum.case gpu if_False
      demo_create_resnet34 opened loads option.case
    by simp
qed

text \<open>
  A match need not load: in \<^verbatim>\<open>/opt/ml/other\<close> the only match is \<^verbatim>\<open>resnet.pth\<close>, whose
  name without extension is the submodule \<^verbatim>\<open>resnet\<close> of \<^verbatim>\<open>torchvision.models\<close>, and
  calling it raises \<^verbatim>\<open>TypeError\<close>.
\<close>

lemma model_fn_not_callable: "model_fn demo_world ''/opt/ml/other'' = Inl TypeError"
  by (simp add: model_fn_def glob_def demo_world_def has_magic_def fnmatch_star_def
      os_path_split_def os_path_join_def splitext_def getattr_tvm_def create_model_def
      dict_get_def model_meta_def Let_def)

subsection \<open>The architecture metadata\<close>

lemma dom_model_meta:
  "dom model_meta = {''resnet18'', ''resnet34'', ''resnet50'', ''resnet101'', ''resnet152''}"
  by (auto simp: model_meta_def split: if_splits)

text \<open>
  Claim C5, as the code has it. For every architecture that is not a key of
  \<open>model_meta\<close>, the lookup in \<^verbatim>\<open>_create_model\<close> does not fail: it gives the default
  metadata, and the body is cut at \<open>-1\<close>. For each of the five ResNets that are keys the
  lookup gives the ResNet metadata and the body is cut at \<open>-2\<close>. In both cases
  \<^verbatim>\<open>_create_model\<close> itself can still raise after the lookup: what the call
  \<^verbatim>\<open>arch(False)\<close> raises, or \<^verbatim>\<open>TypeError\<close> when the body cut at that point has no
  feature count; otherwise it returns the network with that cut.
\<close>

theorem create_model_cut:
  "(arch \<notin> dom model_meta \<longrightarrow>
      dict_get model_meta arch default_meta = default_meta \<and>
      create_model W arch dev =
        (case arch_call W arch of
           Some e \<Rightarrow> Inl e
         | None \<Rightarrow>
             (case num_features W arch (- 1) of
                None \<Rightarrow> Inl TypeError
              | Some n \<Rightarrow>
                  Inr \<lparr>body_arch = arch, body_cut = - 1, head_nf = n * 2, head_out = 2,
                       state_dict = None, device = ''cpu'', training = True\<rparr>))) \<and>
   (arch \<in> {''resnet18'', ''resnet34'', ''resnet50'', ''resnet101'', ''resnet152''} \<longrightarrow>
      arch \<in> dom model_meta \<and>
      dict_get model_meta arch default_meta = resnet_meta \<and>
      create_model W arch dev =
        (case arch_call W arch of
           Some e \<Rightarrow> Inl e
         | None \<Rightarrow>
             (case num_features W arch (- 2) of
                None \<Rightarrow> Inl TypeError
              | Some n \<Rightarrow>
                  Inr \<lparr>body_arch = arch, body_cut = - 2, head_nf = n * 2, head_out = 2,
                       state_dict = None, device = ''cpu'', training = True\<rparr>)))"
proof -
  have a: "dict_get model_meta arch default_meta = default_meta" if "arch \<notin> dom model_meta"
    using that by (auto simp: dict_get_def domIff)
  have b: "dict_get model_meta arch default_meta = resnet_meta"
    if "arch \<in> {''resnet18'', ''resnet34'', ''resnet50'', ''resnet101'', ''resnet152''}"
    using that by (auto simp: dict_get_def model_meta_def)
  have c1: "create_model W arch dev =
        (case arch_call W arch of
           Some e \<Rightarrow> Inl e
         | None \<Rightarrow>
             (case num_features W arch (- 1) of
                None \<Rightarrow> Inl TypeError
              | Some n \<Rightarrow>
                  Inr \<lparr>body_arch = arch, body_cut = - 1, head_nf = n * 2, head_out = 2,
                       state_dict = None, device = ''cpu'', training = True\<rparr>))"
    if "dict_get model_meta arch default_meta = default_meta"
    unfolding create_model_def Let_def that
    by (simp add: default_meta_def classes_def split: option.splits)
  have c2: "create_model W arch dev =
        (case arch_call W arch of
           Some e \<Rightarrow> Inl e
         | None \<Rightarrow>
             (case num_features W arch (- 2) of
                None \<Rightarrow> Inl TypeError
              | Some n \<Rightarrow>
                  Inr \<lparr>body_arch = arch, body_cut = - 2, head_nf = n * 2, head_out = 2,
                       state_dict = None, device = ''cpu'', training = True\<rparr>))"
    if "dict_get model_meta arch default_meta = resnet_meta"
    unfolding create_model_def Let_def that
    by (simp add: resnet_meta_def classes_def split: option.splits)
  have k: "arch \<in> dom model_meta"
    if "arch \<in> {''resnet18'', ''resnet34'', ''resnet50'', ''resnet101'', ''resnet152''}"
    using that by (simp only: dom_model_meta)
  from a c1 have first: "arch \<notin> dom model_meta \<longrightarrow>
      dict_get model_meta arch default_meta = default_meta \<and>
      create_model W arch dev =
        (case arch_call W arch of
           Some e \<Rightarrow> Inl e
         | None \<Rightarrow>
             (case num_features W arch (- 1) of
                None \<Rightarrow> Inl TypeError
              | Some n \<Rightarrow>
                  Inr \<lparr>body_arch = arch, body_cut = - 1, head_nf = n * 2, head_out = 2,
                       state_dict = None, device = ''cpu'', training = True\<rparr>))"
    by blast
  from b c2 k have second:
    "arch \<in> {''resnet18'', ''resnet34'', ''resnet50'', ''resnet101'', ''resnet152''} \<longrightarrow>
      arch \<in> dom model_meta \<and>
      dict_get model_meta arch default_meta = resnet_meta \<and>
      create_model W arch dev =
        (case arch_call W arch of
           Some e \<Rightarrow> Inl e
         | None \<Rightarrow>
             (case num_features W arch (- 2) of
                None \<Rightarrow> Inl TypeError
              | Some n \<Rightarrow>
                  Inr \<lparr>body_arch = arch, body_cut = - 2, head_nf = n * 2, head_out = 2,
                       state_dict = None, device = ''cpu'', training = True\<rparr>))"
    by blast
  from first second show ?thesis by (rule conjI)
qed

text \<open>
  \<^verbatim>\<open>resnext50_32x4d\<close> is no key and its network is cut at \<open>-1\<close>; \<^verbatim>\<open>resnet34\<close> is a key and
  its network is cut at \<open>-2\<close>.
\<close>

theorem create_model_cut_witness:
  "''resnext50_32x4d'' \<notin> dom model_meta \<and>
   create_model demo_world ''resnext50_32x4d'' ''cpu'' =
     Inr \<lparr>body_arch = ''resnext50_32x4d'', body_cut = - 1, head_nf = 4096, head_out = 2,
          state_dict = None, device = ''cpu'', training = True\<rparr> \<and>
   ''resnet34'' \<in> {''resnet18'', ''resnet34'', ''resnet50'', ''resnet101'', ''resnet152''} \<and>
   create_model demo_world ''resnet34'' ''cpu'' =
     Inr \<lparr>body_arch = ''resnet34'', body_cut = - 2, head_nf = 1024, head_out = 2,
          state_dict = None, device = ''cpu'', training = True\<rparr>"
proof -
  have h: "''resnext50_32x4d'' \<notin> dom model_meta" by (simp add: dom_model_meta)
  have k: "''resnet34'' \<in> {''resnet18'', ''resnet34'', ''resnet50'', ''resnet101'', ''resnet152''}"
    by simp
  have w: "arch_call demo_world ''resnext50_32x4d'' = None"
      "num_features demo_world ''resnext50_32x4d'' (- 1) = Some 2048"
      "arch_call demo_world ''resnet34'' = None"
      "num_features demo_world ''resnet34'' (- 2) = Some 512"
    by (simp_all add: demo_world_def)
  from create_model_cut [of "''resnext50_32x4d''" demo_world "''cpu''"] h
  have x: "create_model demo_world ''resnext50_32x4d'' ''cpu'' =
     Inr \<lparr>body_arch = ''resnext50_32x4d'', body_cut = - 1, head_nf = 4096, head_out = 2,
          state_dict = None, device = ''cpu'', training = True\<rparr>"
    by (simp add: w)
  from create_model_cut [of "''resnet34''" demo_world "''cpu''"] k
  have y: "create_model demo_world ''resnet34'' ''cpu'' =
     Inr \<lparr>body_arch = ''resnet34'', body_cut = - 2, head_nf = 1024, head_out = 2,
          state_dict = None, device = ''cpu'', training = True\<rparr>"
    by (simp add: w)
  show ?thesis by (intro conjI) (rule h k x y)+
qed

text \<open>
  Claim C5 as the spec states it fails: \<^verbatim>\<open>vgg16\<close> is no key, the lookup falls back to
  the default metadata, and \<^verbatim>\<open>_create_model\<close> fails all the same, with the \<^verbatim>\<open>TypeError\<close> of
  \<^verbatim>\<open>None * 2\<close>.
\<close>

theorem create_model_fails_counterexample:
  "''vgg16'' \<notin> dom model_meta \<and>
   create_model demo_world ''vgg16'' ''cpu'' = Inl TypeError"
  by (simp add: dom_model_meta create_model_def demo_world_def dict_get_def model_meta_def
      default_meta_def Let_def)

subsection \<open>Decoding the request\<close>

text \<open>
  Claim C3. For every request body, every decoder and every declared content type other
  than \<^verbatim>\<open>image/jpeg\<close>, \<^verbatim>\<open>input_fn\<close> raises the exception whose message is
  \<^verbatim>\<open>Requested unsupported ContentType in content_type: \<close> followed by the declared type
  (the script's form of the unsupported-content-type error). The result does not depend
  on the decoder or on the body, so the body is not decoded: a body that cannot be
  decoded gives the same exception. For \<^verbatim>\<open>image/jpeg\<close> the result is that of decoding,
  converting to RGB and preprocessing.
\<close>

theorem input_fn_content_type:
  "(content_type \<noteq> JPEG_CONTENT_TYPE \<longrightarrow>
      input_fn W img_size image_open request_body content_type =
        Inl (Exception (''Requested unsupported ContentType in content_type: '' @ content_type))) \<and>
   (content_type = JPEG_CONTENT_TYPE \<longrightarrow>
      input_fn W img_size image_open request_body content_type =
        (case image_open request_body of
           Inl e \<Rightarrow> Inl e
         | Inr img \<Rightarrow>
             (case preprocess img_size (convert ''RGB'' img) of
                Inl e \<Rightarrow> Inl e
              | Inr t \<Rightarrow> Inr ((unsqueeze 0 t)
                  \<lparr>t_device := if cuda_is_available W then ''cuda'' else ''cpu''\<rparr>))))"
  by (simp add: input_fn_def Let_def)

text \<open>
  With the declared type \<^verbatim>\<open>image/png\<close> a decodable body and an undecodable body give
  the same exception; with \<^verbatim>\<open>image/jpeg\<close> the undecodable body gives the decoder's
  error and the decodable one a tensor.
\<close>

theorem input_fn_content_type_witness:
  "''image/png'' \<noteq> JPEG_CONTENT_TYPE \<and>
   demo_image_open [255, 216] =
     Inr \<lparr>im_width = 500, im_height = 375, im_mode = ''L''\<rparr> \<and>
   input_fn demo_world 224 demo_image_open [255, 216] ''image/png'' =
     Inl (Exception ''Requested unsupported ContentType in content_type: image/png'') \<and>
   input_fn demo_world 224 demo_image_open [] ''image/png'' =
     Inl (Exception ''Requested unsupported ContentType in content_type: image/png'') \<and>
   input_fn demo_world 224 demo_image_open [] ''image/jpeg'' = Inl OSError \<and>
   input_fn demo_world 224 demo_image_open [255, 216] ''image/jpeg'' =
     Inr \<lparr>t_shape = [1, 3, 224, 224], t_device = ''cpu''\<rparr>"
proof -
  have p: "preprocess 224 \<lparr>im_width = 500, im_height = 375, im_mode = ''RGB''\<rparr> =
      Inr \<lparr>t_shape = [3, 224, 224], t_device = ''cpu''\<rparr>"
    by (simp add: preprocess_def Resize_def CenterCrop_def crop_def round_half_def
        ToTensor_def Normalize_def nchannel_def Let_def)
  from input_fn_content_type [of "''image/png''" demo_world 224 demo_image_open "[255, 216]"]
       input_fn_content_type [of "''image/png''" demo_world 224 demo_image_open "[]"]
       input_fn_content_type [of "''image/jpeg''" demo_world 224 demo_image_open "[]"]
       input_fn_content_type [of "''image/jpeg''" demo_world 224 demo_image_open "[255, 216]"]
  show ?thesis
    by (simp add: JPEG_CONTENT_TYPE_def demo_image_open_def demo_world_def convert_def
        unsqueeze_def p)
qed

subsection \<open>Encoding the response\<close>

text \<open>
  Claim C4. For every prediction and every accept type, \<^verbatim>\<open>output_fn\<close> returns, when the
  accept type is \<^verbatim>\<open>application/json\<close>, the JSON text of an object with the key
  \<^verbatim>\<open>class\<close>, holding the class name as a JSON string, followed by the key
  \<^verbatim>\<open>confidence\<close>, holding the confidence as Python prints a float; a class name of the
  label set is written between double quotes with no escape. For every other accept
  type it raises the exception whose message is
  \<^verbatim>\<open>Requested unsupported ContentType in Accept: \<close> followed by the accept type.
\<close>

theorem output_fn_accept:
  "(accept = JSON_CONTENT_TYPE \<longrightarrow>
      (\<exists>body. output_fn float_repr prediction accept = Inr (body, accept) \<and>
         body = ''{'' @ json_string ''class'' @ '': '' @ json_string (r_class prediction) @
                '', '' @ json_string ''confidence'' @ '': '' @
                float_repr (r_confidence prediction) @ ''}'' \<and>
         (r_class prediction \<in> set classes \<longrightarrow>
            json_string (r_class prediction) = [CHR 0x22] @ r_class prediction @ [CHR 0x22]))) \<and>
   (accept \<noteq> JSON_CONTENT_TYPE \<longrightarrow>
      output_fn float_repr prediction accept =
        Inl (Exception (''Requested unsupported ContentType in Accept: '' @ accept)))"
  by (auto simp: output_fn_def json_dumps_def classes_def json_string_def json_escape_def)

text \<open>
  The response for dogs at confidence 0.75, accepted as \<^verbatim>\<open>application/json\<close> and as
  \<^verbatim>\<open>text/csv\<close>.
\<close>

theorem output_fn_accept_witness:
  "''application/json'' = JSON_CONTENT_TYPE \<and>
   ''dogs'' \<in> set classes \<and>
   output_fn demo_float_repr \<lparr>r_class = ''dogs'', r_confidence = Num (3 / 4)\<rparr> ''application/json'' =
     Inr (''{'' @ [CHR 0x22] @ ''class'' @ [CHR 0x22] @ '': '' @ [CHR 0x22] @ ''dogs'' @ [CHR 0x22] @
          '', '' @ [CHR 0x22] @ ''confidence'' @ [CHR 0x22] @ '': 0.75}'', ''application/json'') \<and>
   ''text/csv'' \<noteq> JSON_CONTENT_TYPE \<and>
   output_fn demo_float_repr \<lparr>r_class = ''dogs'', r_confidence = Num (3 / 4)\<rparr> ''text/csv'' =
     Inl (Exception ''Requested unsupported ContentType in Accept: text/csv'')"
proof -
  have j: "json_string ''class'' = [CHR 0x22] @ ''class'' @ [CHR 0x22]"
       "json_string ''confidence'' = [CHR 0x22] @ ''confidence'' @ [CHR 0x22]"
    by (simp_all add: json_string_def json_escape_def)
  from output_fn_accept [of "''application/json''" demo_float_repr
         "\<lparr>r_class = ''dogs'', r_confidence = Num (3 / 4)\<rparr>"]
       output_fn_accept [of "''text/csv''" demo_float_repr
         "\<lparr>r_class = ''dogs'', r_confidence = Num (3 / 4)\<rparr>"]
  show ?thesis
    by (simp add: JSON_CONTENT_TYPE_def classes_def demo_float_repr_def j)
qed

text \<open>
  Claim C10. When \<^verbatim>\<open>output_fn\<close> succeeds it returns a pair, the serialized JSON text and
  a content type, and the content type is the accept type it was called with
  (\<^verbatim>\<open>application/json\<close>); it succeeds for that accept type.
\<close>

theorem output_fn_pair:
  "(accept = JSON_CONTENT_TYPE \<longrightarrow>
      output_fn float_repr prediction accept = Inr (json_dumps float_repr prediction, accept)) \<and>
   (\<forall>body ct. output_fn float_repr prediction accept = Inr (body, ct) \<longrightarrow>
      ct = accept \<and> ct = JSON_CONTENT_TYPE \<and> body = json_dumps float_repr prediction)"
  by (auto simp: output_fn_def split: if_splits)

text \<open>
  The pair returned for cats at confidence 0.5.
\<close>

theorem output_fn_pair_witness:
  "''application/json'' = JSON_CONTENT_TYPE \<and>
   output_fn demo_float_repr \<lparr>r_class = ''cats'', r_confidence = Num (1 / 2)\<rparr> ''application/json'' =
     Inr (json_dumps demo_float_repr \<lparr>r_class = ''cats'', r_confidence = Num (1 / 2)\<rparr>,
          ''application/json'') \<and>
   snd (json_dumps demo_float_repr \<lparr>r_class = ''cats'', r_confidence = Num (1 / 2)\<rparr>,
        ''application/json'') = ''application/json''"
proof -
  have h: "''application/json'' = JSON_CONTENT_TYPE" by (simp add: JSON_CONTENT_TYPE_def)
  have "output_fn demo_float_repr \<lparr>r_class = ''cats'', r_confidence = Num (1 / 2)\<rparr> ''application/json'' =
     Inr (json_dumps demo_float_repr \<lparr>r_class = ''cats'', r_confidence = Num (1 / 2)\<rparr>,
          ''application/json'')"
    using output_fn_pair [of "''application/json''" demo_float_repr
          "\<lparr>r_class = ''cats'', r_confidence = Num (1 / 2)\<rparr>"] h by blast
  with h show ?thesis by simp
qed

subsection \<open>Softmax and the row maximum\<close>

lemma sum_list_exp_nonneg: "0 \<le> sum_list (map exp (xs :: real list))"
  by (induction xs) (auto intro: add_nonneg_nonneg)

lemma sum_list_exp_pos: "xs \<noteq> [] \<Longrightarrow> 0 < sum_list (map exp (xs :: real list))"
  by (cases xs) (auto intro: add_pos_nonneg simp: sum_list_exp_nonneg)

lemma sum_list_divide: "sum_list (map (\<lambda>x. f x / c) xs) = sum_list (map f xs) / (c :: real)"
  by (induction xs) (simp_all add: add_divide_distrib)

lemma exp_le_sum_list: "x \<in> set xs \<Longrightarrow> exp x \<le> sum_list (map exp (xs :: real list))"
proof (induction xs)
  case Nil
  then show ?case by simp
next
  case (Cons y ys)
  show ?case
  proof (cases "x = y")
    case True
    then show ?thesis using sum_list_exp_nonneg [of ys] by simp
  next
    case False
    with Cons have "exp x \<le> sum_list (map exp ys)" by simp
    then show ?thesis by (simp add: add_increasing)
  qed
qed

lemma softmax_unit:
  fixes xs :: "real list"
  assumes "xs \<noteq> []"
  shows "(\<forall>v\<in>set xs. 0 \<le> exp v / (\<Sum>u\<leftarrow>xs. exp u) \<and> exp v / (\<Sum>u\<leftarrow>xs. exp u) \<le> 1) \<and>
         (\<Sum>v\<leftarrow>xs. exp v / (\<Sum>u\<leftarrow>xs. exp u)) = 1"
proof -
  have pos: "0 < (\<Sum>u\<leftarrow>xs. exp u)" by (rule sum_list_exp_pos) (rule assms)
  have "0 \<le> exp v / (\<Sum>u\<leftarrow>xs. exp u) \<and> exp v / (\<Sum>u\<leftarrow>xs. exp u) \<le> 1" if "v \<in> set xs" for v
    using exp_le_sum_list [OF that] pos by simp
  moreover have "(\<Sum>v\<leftarrow>xs. exp v / (\<Sum>u\<leftarrow>xs. exp u)) = 1"
    using pos by (simp add: sum_list_divide)
  ultimately show ?thesis by blast
qed

text \<open>
  On a row of finite scores the softmax of the script is the softmax of the reals: the
  entry for the score \<open>v\<close> is \<open>exp v\<close> over the sum of the exponentials.
\<close>

lemma fmax_list_Num: "\<exists>m. fmax_list (Num x) (map Num ys) = Num m"
proof (induction ys arbitrary: x)
  case Nil
  show ?case by simp
next
  case (Cons y ys)
  from Cons [of y] obtain m where "fmax_list (Num y) (map Num ys) = Num m" by blast
  then show ?case by (simp add: fmax_def)
qed

lemma fsum_Num: "fsum (map Num zs) = Num (sum_list zs)"
  by (induction zs) simp_all

lemma length_softmax: "length (softmax xs) = length xs"
  by (cases xs) (simp_all add: softmax_def Let_def)

lemma softmax_finite:
  "softmax (map Num xs) = map (\<lambda>v. Num (exp v / (\<Sum>u\<leftarrow>xs. exp u))) xs"
proof (cases xs)
  case Nil
  then show ?thesis by (simp add: softmax_def)
next
  case (Cons x rest)
  obtain m where m: "fmax_list (Num x) (map Num rest) = Num m"
    using fmax_list_Num by blast
  let ?S = "\<Sum>u\<leftarrow>xs. exp u"
  have S: "0 < ?S" by (rule sum_list_exp_pos) (simp add: Cons)
  have es: "map (\<lambda>v. fexp (fsub v (Num m))) (map Num xs) = map Num (map (\<lambda>v. exp v / exp m) xs)"
    by (simp add: fsub_def exp_diff)
  have s: "fsum (map Num (map (\<lambda>v. exp v / exp m) xs)) = Num (?S / exp m)"
    by (simp only: fsum_Num sum_list_divide)
  have nz: "?S / exp m \<noteq> 0" using S by simp
  have c: "map Num xs = Num x # map Num rest" by (simp add: Cons)
  have "softmax (Num x # map Num rest) =
          map (\<lambda>e. fdiv e (fsum (map (\<lambda>v. fexp (fsub v (Num m))) (Num x # map Num rest))))
            (map (\<lambda>v. fexp (fsub v (Num m))) (Num x # map Num rest))"
    by (simp only: softmax_def list.case Let_def m)
  then have "softmax (map Num xs) =
          map (\<lambda>e. fdiv e (Num (?S / exp m))) (map Num (map (\<lambda>v. exp v / exp m) xs))"
    by (simp only: c [symmetric] es s)
  also have "\<dots> = map (\<lambda>v. Num ((exp v / exp m) / (?S / exp m))) xs"
    using nz by simp
  also have "\<dots> = map (\<lambda>v. Num (exp v / ?S)) xs"
    by simp
  finally show ?thesis .
qed

lemma fle_cases:
  "a \<noteq> NaN \<Longrightarrow> b \<noteq> NaN \<Longrightarrow> fle a b \<or> fle b a"
  by (cases a; cases b) auto

lemma fle_trans: "fle a b \<Longrightarrow> fle b c \<Longrightarrow> fle a c"
  by (cases a; cases b; cases c) auto

lemma fle_not_NaN: "fle a b \<Longrightarrow> a \<noteq> NaN \<and> b \<noteq> NaN"
  by (cases a; cases b) auto

lemma flt_Num: "flt (Num a) (Num b) \<longleftrightarrow> a < b"
  by (auto simp: flt_def)

text \<open>
  The element that \<open>row_max\<close> returns stands at the index it returns, and no element of
  the row is greater.
\<close>

lemma row_max_spec:
  "row_max x xs = (m, i) \<Longrightarrow>
     i < Suc (length xs) \<and> (x # xs) ! i = m \<and> (\<forall>j<Suc (length xs). \<not> flt m ((x # xs) ! j))"
proof (induction xs arbitrary: x m i)
  case Nil
  then show ?case by (simp add: flt_def)
next
  case (Cons y ys)
  obtain m' i' where r: "row_max y ys = (m', i')" by (cases "row_max y ys")
  from Cons.IH [OF r] have ih: "i' < Suc (length ys)" "(y # ys) ! i' = m'"
      "\<forall>j<Suc (length ys). \<not> flt m' ((y # ys) ! j)" by simp_all
  show ?case
  proof (cases "x \<noteq> NaN \<and> \<not> fle m' x")
    case True
    with Cons.prems r have mi: "m = m'" "i = Suc i'" by simp_all
    have "\<not> flt m' x" using True by (auto simp: flt_def)
    with ih mi show ?thesis by (auto simp: less_Suc_eq_0_disj)
  next
    case False
    with Cons.prems r have mi: "m = x" "i = 0" by auto
    have "\<not> flt x ((y # ys) ! j)" if j: "j < Suc (length ys)" for j
    proof
      assume lt: "flt x ((y # ys) ! j)"
      then have "x \<noteq> NaN" and xz: "fle x ((y # ys) ! j)" and nzx: "\<not> fle ((y # ys) ! j) x"
        using fle_not_NaN by (auto simp: flt_def)
      with False have mx: "fle m' x" by simp
      from ih(3) j have "\<not> flt m' ((y # ys) ! j)" by blast
      moreover from mx xz have "fle m' ((y # ys) ! j)" by (rule fle_trans)
      ultimately have "fle ((y # ys) ! j) m'" by (simp add: flt_def)
      then have "fle ((y # ys) ! j) x" using mx by (rule fle_trans)
      with nzx show False by contradiction
    qed
    then have tail: "\<not> flt x ((y # ys) ! j)" if "j < Suc (length ys)" for j
      using that by blast
    have "\<not> flt x ((x # y # ys) ! j)" if "j < Suc (length (y # ys))" for j
    proof (cases j)
      case 0
      then show ?thesis by (simp add: flt_def)
    next
      case (Suc k)
      with that have "k < Suc (length ys)" by simp
      from tail [OF this] show ?thesis by (simp add: Suc)
    qed
    then show ?thesis by (simp add: mi)
  qed
qed

text \<open>
  What \<^verbatim>\<open>predict_fn\<close> computes for a batch of one non-empty row, that it succeeds on no
  other output of the network, and its response to one row of finite scores, one per
  label.
\<close>

lemma predict_fn_one_row:
  assumes "model x = [a # as]"
  shows "predict_fn x model =
    (case row_max (hd (softmax (a # as))) (tl (softmax (a # as))) of (m, i) \<Rightarrow>
       if i < length classes then Inr \<lparr>r_class = classes ! i, r_confidence = m\<rparr>
       else Inl IndexError)"
proof -
  have "length (softmax (a # as)) = Suc (length as)" by (simp add: length_softmax)
  then obtain p ps where ps: "softmax (a # as) = p # ps" by (cases "softmax (a # as)") auto
  show ?thesis
    using assms
    by (simp add: predict_fn_def ps item_def getitem_def split: prod.splits)
qed

lemma torch_max_rows:
  "torch_max rows = Inr (vals, idxs) \<Longrightarrow>
     length vals = length rows \<and> length idxs = length rows \<and> [] \<notin> set rows"
proof (induction rows arbitrary: vals idxs rule: torch_max.induct)
  case 1
  then show ?case by simp
next
  case (2 rows)
  then show ?case by simp
next
  case (3 x xs rows)
  then show ?case by (auto split: sum.splits prod.splits)
qed

lemma predict_fn_success:
  assumes "predict_fn x model = Inr r"
  shows "\<exists>a as. model x = [a # as]"
proof -
  from assms obtain vals idxs where t: "torch_max (map softmax (model x)) = Inr (vals, idxs)"
    by (auto simp: predict_fn_def Let_def split: sum.splits prod.splits)
  with assms obtain c where "item vals = Inr c"
    by (auto simp: predict_fn_def Let_def split: sum.splits prod.splits)
  then have "length vals = 1" by (auto simp: item_def split: list.splits)
  with torch_max_rows [OF t] have l: "length (model x) = 1" and ne: "[] \<notin> set (map softmax (model x))"
    by simp_all
  from l obtain row where row: "model x = [row]" by (cases "model x") auto
  with ne have "softmax row \<noteq> []" by auto
  then have "row \<noteq> []" using length_softmax [of row] by auto
  with row show ?thesis by (cases row) auto
qed

lemma predict_fn_finite:
  assumes out: "model x = [map Num xs]" and width: "length xs = length classes"
  shows "\<exists>i<length xs.
           predict_fn x model =
             Inr \<lparr>r_class = classes ! i,
                  r_confidence = Num (exp (xs ! i) / (\<Sum>u\<leftarrow>xs. exp u))\<rparr> \<and>
           (\<forall>j<length xs. exp (xs ! j) / (\<Sum>u\<leftarrow>xs. exp u) \<le> exp (xs ! i) / (\<Sum>u\<leftarrow>xs. exp u))"
proof -
  let ?S = "\<Sum>u\<leftarrow>xs. exp u"
  let ?ps = "softmax (map Num xs)"
  from width have "xs \<noteq> []" by (auto simp: classes_def)
  then obtain a as where xs: "xs = a # as" by (cases xs) auto
  have sm: "?ps = map (\<lambda>v. Num (exp v / ?S)) xs" by (rule softmax_finite)
  have "?ps \<noteq> []" using length_softmax [of "map Num xs"] by (auto simp: xs)
  then have ps: "?ps = hd ?ps # tl ?ps" by simp
  obtain m i where mi: "row_max (hd ?ps) (tl ?ps) = (m, i)"
    by (cases "row_max (hd ?ps) (tl ?ps)")
  from row_max_spec [OF mi] have "i < Suc (length (tl ?ps))" and "(hd ?ps # tl ?ps) ! i = m"
    and "\<forall>j<Suc (length (tl ?ps)). \<not> flt m ((hd ?ps # tl ?ps) ! j)"
    by simp_all
  then have i: "i < length xs" and m: "?ps ! i = m"
    and top: "\<forall>j<length xs. \<not> flt m (?ps ! j)"
    using ps length_softmax [of "map Num xs"] by (metis length_Cons length_map)+
  from i m have mv: "m = Num (exp (xs ! i) / ?S)" by (simp add: sm)
  have max: "\<forall>j<length xs. exp (xs ! j) / ?S \<le> exp (xs ! i) / ?S"
  proof (intro allI impI)
    fix j assume j: "j < length xs"
    with top have "\<not> flt m (?ps ! j)" by blast
    with j have "\<not> flt (Num (exp (xs ! i) / ?S)) (Num (exp (xs ! j) / ?S))"
      by (simp add: mv sm)
    then show "exp (xs ! j) / ?S \<le> exp (xs ! i) / ?S" by (simp add: flt_Num not_less)
  qed
  from i width have ic: "i < length classes" by simp
  have "model x = [Num a # map Num as]" using out by (simp add: xs)
  from predict_fn_one_row [of model x "Num a" "map Num as", OF this] mi ic
  have "predict_fn x model = Inr \<lparr>r_class = classes ! i, r_confidence = m\<rparr>"
    by (simp add: xs)
  with i mv max show ?thesis by blast
qed

lemma demo_softmax: "softmax [Num 0, Num (ln 3)] = [Num (1 / 4), Num (3 / 4)]"
  using softmax_finite [of "[0, ln 3]"] by simp

lemma demo_predict:
  "predict_fn \<lparr>t_shape = [1, 3, 224, 224], t_device = ''cpu''\<rparr> demo_net =
     Inr \<lparr>r_class = ''dogs'', r_confidence = Num (3 / 4)\<rparr>"
  by (simp add: predict_fn_def demo_net_def demo_softmax item_def getitem_def classes_def)

subsection \<open>The prediction\<close>

text \<open>
  Claim C2, as the code has it. When the network answers an input with one row of
  finite scores, one score per label, \<^verbatim>\<open>predict_fn\<close> succeeds. The softmax of the row is
  a probability distribution: the entry for the score \<open>v\<close> is \<open>exp v\<close> over the sum of the
  exponentials, each entry lies in \<open>[0, 1]\<close> and the entries sum to \<open>1\<close>. The response
  carries the label at an index whose probability no other exceeds, with that
  probability as its confidence, so the confidence lies in \<open>[0, 1]\<close>. Arithmetic on
  finite values is exact here, where the script rounds.
\<close>

theorem predict_fn_softmax:
  assumes out: "model x = [map Num xs]" and width: "length xs = length classes"
  shows "\<exists>r i. predict_fn x model = Inr r \<and>
           softmax (map Num xs) = map (\<lambda>v. Num (exp v / (\<Sum>u\<leftarrow>xs. exp u))) xs \<and>
           (\<forall>v\<in>set xs. 0 \<le> exp v / (\<Sum>u\<leftarrow>xs. exp u) \<and> exp v / (\<Sum>u\<leftarrow>xs. exp u) \<le> 1) \<and>
           (\<Sum>v\<leftarrow>xs. exp v / (\<Sum>u\<leftarrow>xs. exp u)) = 1 \<and>
           i < length xs \<and>
           (\<forall>j<length xs. exp (xs ! j) / (\<Sum>u\<leftarrow>xs. exp u) \<le> exp (xs ! i) / (\<Sum>u\<leftarrow>xs. exp u)) \<and>
           r_class r = classes ! i \<and>
           r_confidence r = Num (exp (xs ! i) / (\<Sum>u\<leftarrow>xs. exp u)) \<and>
           0 \<le> exp (xs ! i) / (\<Sum>u\<leftarrow>xs. exp u) \<and> exp (xs ! i) / (\<Sum>u\<leftarrow>xs. exp u) \<le> 1"
proof -
  from width have ne: "xs \<noteq> []" by (auto simp: classes_def)
  from predict_fn_finite [of model x xs, OF out width] obtain i where i: "i < length xs"
    and r: "predict_fn x model =
             Inr \<lparr>r_class = classes ! i,
                  r_confidence = Num (exp (xs ! i) / (\<Sum>u\<leftarrow>xs. exp u))\<rparr>"
    and top: "\<forall>j<length xs. exp (xs ! j) / (\<Sum>u\<leftarrow>xs. exp u) \<le> exp (xs ! i) / (\<Sum>u\<leftarrow>xs. exp u)"
    by blast
  note u = softmax_unit [OF ne]
  from i have "xs ! i \<in> set xs" by simp
  with u have "0 \<le> exp (xs ! i) / (\<Sum>u\<leftarrow>xs. exp u) \<and> exp (xs ! i) / (\<Sum>u\<leftarrow>xs. exp u) \<le> 1"
    by blast
  with i r top u softmax_finite [of xs] show ?thesis by auto
qed

text \<open>
  For the scores \<open>0\<close> and \<open>ln 3\<close> the probabilities are a quarter and three quarters, and
  the response is dogs at three quarters.
\<close>

theorem predict_fn_softmax_witness:
  "demo_net \<lparr>t_shape = [1, 3, 224, 224], t_device = ''cpu''\<rparr> = [map Num [0, ln 3]] \<and>
   length [0, ln 3 :: real] = length classes \<and>
   softmax (map Num [0, ln 3]) = [Num (1 / 4), Num (3 / 4)] \<and>
   predict_fn \<lparr>t_shape = [1, 3, 224, 224], t_device = ''cpu''\<rparr> demo_net =
     Inr \<lparr>r_class = ''dogs'', r_confidence = Num (3 / 4)\<rparr>"
proof -
  let ?x = "\<lparr>t_shape = [1, 3, 224, 224], t_device = ''cpu''\<rparr>"
  have o: "demo_net ?x = [map Num [0, ln 3]]" by (simp add: demo_net_def)
  have w: "length [0, ln 3 :: real] = length classes" by (simp add: classes_def)
  have s: "softmax (map Num [0, ln 3]) = [Num (1 / 4), Num (3 / 4)]"
    using demo_softmax by simp
  from predict_fn_softmax [of demo_net ?x "[0, ln 3]", OF o w] obtain r where
    r: "predict_fn ?x demo_net = Inr r"
    by blast
  from r demo_predict have "r = \<lparr>r_class = ''dogs'', r_confidence = Num (3 / 4)\<rparr>" by simp
  with r have p: "predict_fn ?x demo_net = Inr \<lparr>r_class = ''dogs'', r_confidence = Num (3 / 4)\<rparr>"
    by simp
  show ?thesis by (intro conjI) (rule o w s p)+
qed

text \<open>
  Claim C2 as the spec states it, for every output of the network, fails: when the
  score for cats is NaN the response is cats with confidence NaN, which is neither at
  least \<open>0\<close> nor at most \<open>1\<close>.
\<close>

theorem predict_fn_nan_counterexample:
  "predict_fn \<lparr>t_shape = [1, 3, 224, 224], t_device = ''cpu''\<rparr> nan_net =
     Inr \<lparr>r_class = ''cats'', r_confidence = NaN\<rparr> \<and>
   \<not> (fle (Num 0) NaN \<and> fle NaN (Num 1))"
  by (simp add: predict_fn_def nan_net_def softmax_def fmax_def fsub_def item_def getitem_def
      classes_def Let_def)

text \<open>
  Claim C8. The label set is the pair cats, dogs, in this order. Whenever \<^verbatim>\<open>predict_fn\<close>
  returns a response, for scores finite or not, its class is the entry of the label set
  at the index that \<^verbatim>\<open>torch.max\<close> gives for the softmax of the single row of scores, and
  so it is cats or dogs. No entry of the softmax is greater than the entry at that
  index; when the scores are finite this is the index of a largest softmax
  probability.
\<close>

theorem predict_fn_class:
  "classes = [''cats'', ''dogs''] \<and>
   (\<forall>r. predict_fn x model = Inr r \<longrightarrow>
      r_class r \<in> {''cats'', ''dogs''} \<and>
      (\<exists>row i. model x = [row] \<and> i < length row \<and> i < length classes \<and>
         (\<forall>j<length row. \<not> flt (softmax row ! i) (softmax row ! j)) \<and>
         (\<forall>xs. row = map Num xs \<longrightarrow>
            (\<forall>j<length xs. exp (xs ! j) / (\<Sum>u\<leftarrow>xs. exp u) \<le> exp (xs ! i) / (\<Sum>u\<leftarrow>xs. exp u))) \<and>
         r_class r = classes ! i \<and>
         r_confidence r = softmax row ! i))"
proof -
  have "r_class r \<in> {''cats'', ''dogs''} \<and>
      (\<exists>row i. model x = [row] \<and> i < length row \<and> i < length classes \<and>
         (\<forall>j<length row. \<not> flt (softmax row ! i) (softmax row ! j)) \<and>
         (\<forall>xs. row = map Num xs \<longrightarrow>
            (\<forall>j<length xs. exp (xs ! j) / (\<Sum>u\<leftarrow>xs. exp u) \<le> exp (xs ! i) / (\<Sum>u\<leftarrow>xs. exp u))) \<and>
         r_class r = classes ! i \<and>
         r_confidence r = softmax row ! i)" if r: "predict_fn x model = Inr r" for r
  proof -
    from predict_fn_success [OF r] obtain a as where out: "model x = [a # as]" by blast
    let ?row = "a # as"
    let ?ps = "softmax ?row"
    have len: "length ?ps = length ?row" by (rule length_softmax)
    then have "?ps \<noteq> []" by auto
    then have ps: "?ps = hd ?ps # tl ?ps" by simp
    obtain m i where mi: "row_max (hd ?ps) (tl ?ps) = (m, i)"
      by (cases "row_max (hd ?ps) (tl ?ps)")
    from row_max_spec [OF mi] have "i < Suc (length (tl ?ps))" and "(hd ?ps # tl ?ps) ! i = m"
      and "\<forall>j<Suc (length (tl ?ps)). \<not> flt m ((hd ?ps # tl ?ps) ! j)"
      by simp_all
    then have i: "i < length ?row" and m: "?ps ! i = m"
      and top: "\<forall>j<length ?row. \<not> flt (?ps ! i) (?ps ! j)"
      using ps len by (metis length_Cons)+
    from r predict_fn_one_row [of model x a as, OF out] mi
    have ic: "i < length classes" and c: "r_class r = classes ! i"
      and conf: "r_confidence r = m"
      by (auto split: if_splits)
    from ic have mem: "classes ! i \<in> {''cats'', ''dogs''}"
      by (cases i) (simp_all add: classes_def)
    have fin: "\<forall>j<length xs. exp (xs ! j) / (\<Sum>u\<leftarrow>xs. exp u) \<le> exp (xs ! i) / (\<Sum>u\<leftarrow>xs. exp u)"
      if row: "?row = map Num xs" for xs
    proof (intro allI impI)
      fix j assume j: "j < length xs"
      from row have l: "length xs = length ?row" by (metis length_map)
      from top j l have "\<not> flt (?ps ! i) (?ps ! j)" by simp
      moreover have "?ps = map (\<lambda>v. Num (exp v / (\<Sum>u\<leftarrow>xs. exp u))) xs"
        unfolding row by (rule softmax_finite)
      ultimately have "\<not> flt (Num (exp (xs ! i) / (\<Sum>u\<leftarrow>xs. exp u)))
                              (Num (exp (xs ! j) / (\<Sum>u\<leftarrow>xs. exp u)))"
        using i j l by simp
      then show "exp (xs ! j) / (\<Sum>u\<leftarrow>xs. exp u) \<le> exp (xs ! i) / (\<Sum>u\<leftarrow>xs. exp u)"
        by (simp add: flt_Num not_less)
    qed
    from out i ic top fin c conf m mem show ?thesis by (metis (no_types, lifting))
  qed
  then show ?thesis by (simp add: classes_def)
qed

text \<open>
  The response for the scores \<open>0\<close> and \<open>ln 3\<close> is dogs.
\<close>

theorem predict_fn_class_witness:
  "predict_fn \<lparr>t_shape = [1, 3, 224, 224], t_device = ''cpu''\<rparr> demo_net =
     Inr \<lparr>r_class = ''dogs'', r_confidence = Num (3 / 4)\<rparr> \<and>
   r_class \<lparr>r_class = ''dogs'', r_confidence = Num (3 / 4)\<rparr> \<in> {''cats'', ''dogs''}"
proof -
  note r = demo_predict
  from predict_fn_class [of _ demo_net] r
  have "r_class \<lparr>r_class = ''dogs'', r_confidence = Num (3 / 4)\<rparr> \<in> {''cats'', ''dogs''}"
    by blast
  with r show ?thesis by (rule conjI)
qed




subsection \<open>The shape of the preprocessed image\<close>

text \<open>
  \<^verbatim>\<open>int\<close> does not drop the separator 0x1C, and drops the no-break space 0xA0 and the
  ASCII space; digits may be grouped by an underscore.
\<close>

lemma py_int_white_space:
  "py_int (CHR 0x1C # ''299'') = Inl ValueError"
  "py_int (CHR 0xA0 # ''299'') = Inr 299"
  "py_int '' 2_99 '' = Inr 299"
  by code_simp+







end
